theory Spec2Isabelle
  imports Complex_Main
begin

section \<open>Python strings\<close>

text \<open>
  The service is written in Python. Its strings are modelled as \<^typ>\<open>string\<close>, read as
  ASCII text: the character classes below are the ones Python's \<^verbatim>\<open>str\<close> methods use
  on code points below 128.
\<close>

text \<open>\<^verbatim>\<open>str.isspace\<close> on one character: tab, line feed, vertical tab, form feed,
  carriage return, the four separators 0x1C..0x1F and the space.\<close>

definition isspace :: "char \<Rightarrow> bool" where
  "isspace c \<longleftrightarrow> (of_char c :: nat) \<in> {9, 10, 11, 12, 13, 28, 29, 30, 31, 32}"

definition isupper :: "char \<Rightarrow> bool" where
  "isupper c \<longleftrightarrow> 65 \<le> (of_char c :: nat) \<and> (of_char c :: nat) \<le> 90"

definition islower :: "char \<Rightarrow> bool" where
  "islower c \<longleftrightarrow> 97 \<le> (of_char c :: nat) \<and> (of_char c :: nat) \<le> 122"

definition upper_char :: "char \<Rightarrow> char" where
  "upper_char c = (if islower c then char_of ((of_char c :: nat) - 32) else c)"

definition lower_char :: "char \<Rightarrow> char" where
  "lower_char c = (if isupper c then char_of ((of_char c :: nat) + 32) else c)"

text \<open>\<^verbatim>\<open>s.lower()\<close>\<close>

definition lower :: "string \<Rightarrow> string" where
  "lower s = map lower_char s"

text \<open>\<^verbatim>\<open>s.lstrip()\<close>, \<^verbatim>\<open>s.rstrip()\<close>, \<^verbatim>\<open>s.strip()\<close>\<close>

definition lstrip :: "string \<Rightarrow> string" where
  "lstrip s = dropWhile isspace s"

definition rstrip :: "string \<Rightarrow> string" where
  "rstrip s = rev (dropWhile isspace (rev s))"

definition strip :: "string \<Rightarrow> string" where
  "strip s = rstrip (lstrip s)"

text \<open>\<^verbatim>\<open>s.split(c)\<close> for a one-character separator: one fragment more than there are
  separators, empty fragments kept.\<close>

fun split_char :: "char \<Rightarrow> string \<Rightarrow> string list" where
  "split_char c [] = [[]]"
| "split_char c (x # xs) =
     (if x = c then [] # split_char c xs
      else let r = split_char c xs in (x # hd r) # tl r)"

text \<open>\<^verbatim>\<open>s.split()\<close>: the maximal runs of non-whitespace characters.\<close>

fun split_ws_acc :: "string \<Rightarrow> string \<Rightarrow> string list" where
  "split_ws_acc w [] = (if w = [] then [] else [rev w])"
| "split_ws_acc w (x # xs) =
     (if isspace x then (if w = [] then split_ws_acc [] xs else rev w # split_ws_acc [] xs)
      else split_ws_acc (x # w) xs)"

definition split_ws :: "string \<Rightarrow> string list" where
  "split_ws s = split_ws_acc [] s"

text \<open>\<^verbatim>\<open>sep.join(xs)\<close>\<close>

fun join :: "string \<Rightarrow> string list \<Rightarrow> string" where
  "join sep [] = []"
| "join sep [x] = x"
| "join sep (x # y # ys) = x @ sep @ join sep (y # ys)"

text \<open>\<^verbatim>\<open>text.endswith(('.', '!', '?'))\<close>\<close>

definition sentence_end :: "char \<Rightarrow> bool" where
  "sentence_end c \<longleftrightarrow> c = CHR ''.'' \<or> c = CHR ''!'' \<or> c = CHR ''?''"

definition ends_with_punct :: "string \<Rightarrow> bool" where
  "ends_with_punct s \<longleftrightarrow> s \<noteq> [] \<and> sentence_end (last s)"

section \<open>Ensure proper ending (llm.py)\<close>

text \<open>The last step of \<^verbatim>\<open>ensure_proper_ending\<close>:
  \<^verbatim>\<open>if text and not text[0].isupper(): text = text[0].upper() + text[1:]\<close>\<close>

definition capitalize_first :: "string \<Rightarrow> string" where
  "capitalize_first s =
     (case s of [] \<Rightarrow> []
      | c # cs \<Rightarrow> if \<not> isupper c then upper_char c # cs else c # cs)"

definition ensure_proper_ending :: "string \<Rightarrow> string" where
  "ensure_proper_ending text0 =
     (if text0 = [] then text0
      else
        let text = strip text0 in
        if ends_with_punct text then text
        else
          let last_sentence = strip (last (split_char CHR ''.'' text));
              text1 =
                (if length last_sentence < 5 then
                   (let sentences = split_char CHR ''.'' text in
                    if length sentences > 1 then join ''.'' (butlast sentences) @ ''.''
                    else rstrip text @ ''.'')
                 else text)
          in capitalize_first text1)"

text \<open>The text that the short-fragment branch of \<^verbatim>\<open>ensure_proper_ending\<close> builds,
  named on its own for the proofs below.\<close>

definition drop_fragment :: "string \<Rightarrow> string" where
  "drop_fragment t =
     (let sentences = split_char CHR ''.'' t in
      if length sentences > 1 then join ''.'' (butlast sentences) @ ''.''
      else rstrip t @ ''.'')"

section \<open>Errors\<close>

text \<open>The exceptions that the modelled code can raise. \<open>OllamaError\<close> stands for any
  exception coming out of a call to the LLM runtime.\<close>

datatype py_error =
    ValueError
  | TypeError
  | RuntimeError
  | UnboundLocalError
  | OllamaError
  | HTTPException nat

section \<open>Extractive fallback (rag.py)\<close>

text \<open>\<^verbatim>\<open>doc.split('. ')\<close>: non-overlapping occurrences of the separator, left to right.\<close>

fun split_dot_space :: "string \<Rightarrow> string list" where
  "split_dot_space [] = [[]]"
| "split_dot_space [x] = [[x]]"
| "split_dot_space (x # y # xs) =
     (if x = CHR ''.'' \<and> y = CHR '' '' then [] # split_dot_space xs
      else let r = split_dot_space (y # xs) in (x # hd r) # tl r)"

text \<open>\<^verbatim>\<open>len(query_words.intersection(set(s.lower().split())))\<close>\<close>

definition overlap :: "string set \<Rightarrow> string \<Rightarrow> nat" where
  "overlap query_words s = card (query_words \<inter> set (split_ws (lower s)))"

text \<open>The two nested loops that collect every sentence sharing a word with the query.\<close>

definition best_sentences :: "string set \<Rightarrow> string list \<Rightarrow> (string \<times> nat) list" where
  "best_sentences query_words context_docs =
     concat (map (\<lambda>doc.
       map (\<lambda>s. (s, overlap query_words s))
         (filter (\<lambda>s. overlap query_words s > 0) (split_dot_space doc)))
       context_docs)"

text \<open>\<^verbatim>\<open>best_sentences.sort(key=lambda x: x[1], reverse=True)\<close>: Python's sort is stable,
  also when reversed, and so is \<^const>\<open>sort_key\<close>.\<close>

definition sort_by_overlap :: "(string \<times> nat) list \<Rightarrow> (string \<times> nat) list" where
  "sort_by_overlap xs = sort_key (\<lambda>x. - int (snd x)) xs"

definition generate_answer_extractive :: "string \<Rightarrow> string list \<Rightarrow> string \<times> string" where
  "generate_answer_extractive query context_docs =
     (if context_docs = [] then (''No relevant docs found.'', ''extractive'')
      else
        let query_words = set (split_ws (lower query));
            top_sentences =
              map fst (take 3 (sort_by_overlap (best_sentences query_words context_docs)));
            joined = join ''. '' top_sentences
        in (if joined = [] then ''No good match.'' else joined, ''extractive''))"

section \<open>Answer generator (llm.py)\<close>

text \<open>config.py\<close>

definition MIN_RESPONSE_TOKENS :: nat where
  "MIN_RESPONSE_TOKENS = 50"

definition MAX_RESPONSE_TOKENS :: nat where
  "MAX_RESPONSE_TOKENS = 1500"

definition max_retries :: nat where
  "max_retries = 2"

definition default_model :: string where
  "default_model = ''gemma3:1b''"

definition nl :: string where
  "nl = [CHR 0x0A]"

definition build_prompt :: "string \<Rightarrow> string list \<Rightarrow> string" where
  "build_prompt query context_docs =
     (let context = join (nl @ nl) (take 3 context_docs) in
      ''Context:'' @ nl @ context @ nl @ nl @
      ''Question: '' @ query @ nl @ nl @
      ''Instructions: Please provide a comprehensive and detailed answer based on the context provided. Your response should:'' @ nl @
      ''1. Be thorough and well-explained'' @ nl @
      ''2. Include relevant details and examples from the context'' @ nl @
      ''3. Be at least 100 words long'' @ nl @
      ''4. Address all aspects of the question'' @ nl @
      ''5. Use clear and professional language'' @ nl @ nl @
      ''Answer:'')"

text \<open>
  The LLM runtime is outside the program. One call of \<^verbatim>\<open>ollama.generate\<close> followed by
  \<^verbatim>\<open>response["response"]\<close> either raises or gives a text; the runtime is a function of
  the number of the call, the model and the prompt. The availability check and the pull
  before it catch every exception of their own and do not change the result; the
  monitoring call \<^verbatim>\<open>record_ollama_request\<close> only bumps counters.
\<close>

datatype llm_outcome = Raises | Responds string

type_synonym llm = "nat \<Rightarrow> string \<Rightarrow> string \<Rightarrow> llm_outcome"

text \<open>What one pass through the \<^verbatim>\<open>try\<close> block does: raise, \<^verbatim>\<open>continue\<close>, or return.\<close>

datatype attempt_result = Continue | Return "string \<times> string"

definition try_attempt ::
  "llm \<Rightarrow> string \<Rightarrow> string list \<Rightarrow> string \<Rightarrow> nat \<Rightarrow> py_error + attempt_result" where
  "try_attempt generate query context_docs model attempt =
     (case generate attempt model (build_prompt query context_docs) of
        Raises \<Rightarrow> Inl OllamaError
      | Responds response \<Rightarrow>
          let answer = strip response;
              word_count = length (split_ws answer)
          in if word_count < MIN_RESPONSE_TOKENS \<and> attempt < max_retries - 1
             then Inr Continue
             else Inr (Return (ensure_proper_ending answer, ''ollama-'' @ model)))"

text \<open>The \<^verbatim>\<open>for attempt in range(max_retries)\<close> loop with its \<^verbatim>\<open>except\<close> handler; the
  empty list is the statement after the loop.\<close>

fun attempts :: "llm \<Rightarrow> string \<Rightarrow> string list \<Rightarrow> string \<Rightarrow> nat list \<Rightarrow> py_error + string \<times> string" where
  "attempts generate query context_docs model [] =
     Inr (generate_answer_extractive query context_docs)"
| "attempts generate query context_docs model (attempt # rest) =
     (case try_attempt generate query context_docs model attempt of
        Inl e \<Rightarrow>
          if attempt < max_retries - 1 then attempts generate query context_docs model rest
          else Inr (generate_answer_extractive query context_docs)
      | Inr Continue \<Rightarrow> attempts generate query context_docs model rest
      | Inr (Return r) \<Rightarrow> Inr r)"

definition generate_answer ::
  "llm \<Rightarrow> string \<Rightarrow> string list \<Rightarrow> string \<Rightarrow> py_error + string \<times> string" where
  "generate_answer generate query context_docs model =
     attempts generate query context_docs model [0..<max_retries]"

section \<open>Natural-ending detector (llm.py)\<close>

definition ends_with :: "string \<Rightarrow> string \<Rightarrow> bool" where
  "ends_with s suffix \<longleftrightarrow>
     length suffix \<le> length s \<and> drop (length s - length suffix) s = suffix"

text \<open>\<^verbatim>\<open>re.search(p + '$', text)\<close> for a literal \<open>p\<close>: the dollar matches at the end of the
  text and also just before a line feed that ends the text.\<close>

definition search_at_end :: "string \<Rightarrow> string \<Rightarrow> bool" where
  "search_at_end p text \<longleftrightarrow> ends_with text p \<or> ends_with text (p @ nl)"

text \<open>The same with \<^verbatim>\<open>re.IGNORECASE\<close> and an optional final period (\<^verbatim>\<open>\.?$\<close>); \<open>p\<close> is
  given in lower case.\<close>

definition search_phrase_at_end :: "string \<Rightarrow> string \<Rightarrow> bool" where
  "search_phrase_at_end p text \<longleftrightarrow>
     search_at_end p (lower text) \<or> search_at_end (p @ ''.'') (lower text)"

text \<open>\<^verbatim>\<open>\.\s*$\<close> and \<^verbatim>\<open>\.\s*\n*$\<close>: a period with nothing but whitespace after it.\<close>

definition search_period_space_end :: "string \<Rightarrow> bool" where
  "search_period_space_end text \<longleftrightarrow>
     (case dropWhile isspace (rev text) of [] \<Rightarrow> False | c # _ \<Rightarrow> c = CHR ''.'')"

definition detect_natural_ending :: "string \<Rightarrow> bool" where
  "detect_natural_ending text \<longleftrightarrow>
     (if text = [] then False
      else if search_at_end ''.'' text then True
      else if search_at_end ''!'' text then True
      else if search_at_end ''?'' text then True
      else if search_period_space_end text then True
      else if search_period_space_end text then True
      else if search_phrase_at_end ''thank you'' text then True
      else if search_phrase_at_end (''that'' @ [CHR 0x27] @ ''s all'') text then True
      else if search_phrase_at_end ''in conclusion'' text then True
      else if search_phrase_at_end ''hope this helps'' text then True
      else
        let sentences = split_char CHR ''.'' text in
        if length sentences > 1 \<and> length (strip (last sentences)) < 5 then True
        else False)"

section \<open>Streaming answer generator (llm.py)\<close>

text \<open>
  The generator's local variables, and the chunks it has yielded so far in \<open>emitted\<close>.
  \<open>asyncio_bound\<close> says whether the \<^verbatim>\<open>import asyncio\<close> and \<^verbatim>\<open>import random\<close>
  statements inside the function body have run: both names are local to the function,
  since it imports them, and the module does not import them, so reading either one
  before that raises \<^verbatim>\<open>UnboundLocalError\<close>.
\<close>

record stream_state =
  buffer :: string
  accumulated_text :: string
  chunk_count :: nat
  asyncio_bound :: bool
  emitted :: "string list"

definition initial_state :: stream_state where
  "initial_state = \<lparr>buffer = [], accumulated_text = [], chunk_count = 0,
     asyncio_bound = False, emitted = []\<rparr>"

definition break_points :: "char list" where
  "break_points = [CHR '' '', CHR ''.'', CHR '','', CHR ''!'', CHR ''?'', CHR '':'', CHR '';'', CHR 0x0A]"

definition max_chunks :: nat where
  "max_chunks = MAX_RESPONSE_TOKENS div 10"

text \<open>The index of the first break point in the buffer: the \<^verbatim>\<open>for i, char in enumerate(buffer)\<close>
  loop up to its \<^verbatim>\<open>break\<close>.\<close>

definition first_break :: "string \<Rightarrow> nat option" where
  "first_break b =
     (let i = length (takeWhile (\<lambda>c. c \<notin> set break_points) b)
      in if i < length b then Some i else None)"

text \<open>The \<^verbatim>\<open>while len(buffer) > 0\<close> loop. An exception leaves with the state reached, so that
  the chunks yielded before it are kept.\<close>

function process_buffer :: "stream_state \<Rightarrow> py_error \<times> stream_state + stream_state" where
  "process_buffer st =
     (if buffer st = [] then Inr st
      else
        case first_break (buffer st) of
          Some i \<Rightarrow>
            let chunk_to_yield = take (i + 1) (buffer st);
                st1 = st\<lparr>accumulated_text := accumulated_text st @ chunk_to_yield,
                         buffer := drop (i + 1) (buffer st),
                         emitted := emitted st @ [chunk_to_yield]\<rparr>
            in if detect_natural_ending (accumulated_text st1) \<and> \<not> asyncio_bound st1
               then Inl (UnboundLocalError, st1)
               else process_buffer st1
        | None \<Rightarrow>
            if length (buffer st) > 10 then
              Inr (st\<lparr>accumulated_text := accumulated_text st @ buffer st,
                      buffer := [],
                      asyncio_bound := True,
                      emitted := emitted st @ [buffer st]\<rparr>)
            else Inr st)"
  by pat_completeness auto
termination
  by (relation "measure (\<lambda>st. length (buffer st))") (auto simp add: first_break_def Let_def split: if_splits)

text \<open>One item of the underlying stream: a dictionary with its \<^verbatim>\<open>response\<close> text (empty when
  the key is missing or the text is empty), or the iteration raising.\<close>

datatype stream_item = Fragment string | StreamRaises

text \<open>The \<^verbatim>\<open>for chunk in stream\<close> loop.\<close>

fun consume :: "stream_state \<Rightarrow> stream_item list \<Rightarrow> py_error \<times> stream_state + stream_state" where
  "consume st [] = Inr st"
| "consume st (StreamRaises # rest) = Inl (OllamaError, st)"
| "consume st (Fragment response # rest) =
     (if response = [] then consume st rest
      else
        let st1 = st\<lparr>buffer := buffer st @ response, chunk_count := chunk_count st + 1\<rparr>
        in if chunk_count st1 \<ge> max_chunks then
             (if buffer st1 \<noteq> [] then
                Inr (st1\<lparr>accumulated_text := accumulated_text st1 @ buffer st1,
                         emitted := emitted st1 @ [buffer st1]\<rparr>)
              else Inr st1)
           else
             case process_buffer st1 of
               Inl e \<Rightarrow> Inl e
             | Inr st2 \<Rightarrow> consume st2 rest)"

text \<open>After the loop: the rest of the buffer is yielded, then what
  \<^verbatim>\<open>ensure_proper_ending\<close> leaves beyond the length of the accumulated text.\<close>

definition finish :: "stream_state \<Rightarrow> stream_state" where
  "finish st =
     (let st1 = (if buffer st \<noteq> [] then st\<lparr>emitted := emitted st @ [buffer st]\<rparr> else st);
          final_answer = ensure_proper_ending (accumulated_text st1)
      in if final_answer \<noteq> accumulated_text st1 then
           (let remaining = drop (length (accumulated_text st1)) final_answer
            in if remaining \<noteq> [] then st1\<lparr>emitted := emitted st1 @ [remaining]\<rparr> else st1)
         else st1)"

text \<open>The \<^verbatim>\<open>except\<close> branch: each word of the non-streaming answer, a space after all but
  the last.\<close>

definition simulate_streaming :: "string \<Rightarrow> string list" where
  "simulate_streaming answer =
     (let words = split_ws answer
      in map (\<lambda>(i, word). word @ (if i < length words - 1 then '' '' else []))
           (zip [0..<length words] words))"

text \<open>The chunks that one run of the generator yields, in order, or the exception that
  ends it.\<close>

definition generate_answer_streaming ::
  "llm \<Rightarrow> stream_item list \<Rightarrow> string \<Rightarrow> string list \<Rightarrow> string \<Rightarrow> py_error + string list" where
  "generate_answer_streaming generate stream query context_docs model =
     (case consume initial_state stream of
        Inr st \<Rightarrow> Inr (emitted (finish st))
      | Inl (e, st) \<Rightarrow>
          (case generate_answer generate query context_docs model of
             Inl e' \<Rightarrow> Inl e'
           | Inr (answer, provenance) \<Rightarrow> Inr (emitted st @ simulate_streaming answer)))"

text \<open>The answer that the non-streaming generator makes of the same text: what
  \<^verbatim>\<open>generate_answer\<close> returns for a response that it accepts.\<close>

definition final_answer_text :: "string list \<Rightarrow> string" where
  "final_answer_text fragments = ensure_proper_ending (strip (concat fragments))"

section \<open>Data model (models.py)\<close>

text \<open>
  Floats are modelled as real numbers: the claims about similarities are about the
  arithmetic the code writes, not about rounding errors of the machine.

  \<^verbatim>\<open>Query\<close> declares \<^verbatim>\<open>top_k: Optional[int] = 3\<close>, \<^verbatim>\<open>threshold: Optional[float] = 0.3\<close> and
  \<^verbatim>\<open>use_llm: Optional[bool] = True\<close>.
\<close>

record Query =
  question :: string
  top_k :: "int option"
  threshold :: "real option"
  use_llm :: "bool option"

text \<open>How a field of a request reaches the constructor: left out, given as null, or given
  a value. A field left out takes the default that the class declares.\<close>

datatype 'a field = Omitted | Null | Given 'a

definition field_value :: "'a \<Rightarrow> 'a field \<Rightarrow> 'a option" where
  "field_value d f = (case f of Omitted \<Rightarrow> Some d | Null \<Rightarrow> None | Given v \<Rightarrow> Some v)"

definition make_Query :: "string \<Rightarrow> int field \<Rightarrow> real field \<Rightarrow> bool field \<Rightarrow> Query" where
  "make_Query q k t u =
     \<lparr>question = q, top_k = field_value 3 k, threshold = field_value (3 / 10) t,
      use_llm = field_value True u\<rparr>"

record SearchResult =
  doc_id :: string
  title :: string
  content :: string
  similarity :: real
  metadata :: "(string \<times> string) list"

record RAGResponse =
  query :: string
  generated_answer :: string
  model_used :: string

section \<open>Embedding (database.py)\<close>

text \<open>What \<^verbatim>\<open>ollama.embeddings\<close> does for a text: raise, answer without an
  \<^verbatim>\<open>embedding\<close> entry, or answer with a vector.\<close>

datatype embed_response = EmbedRaises | NoEmbedding | Embedding "real list"

definition get_ollama_embedding :: "(string \<Rightarrow> embed_response) \<Rightarrow> string \<Rightarrow> real list" where
  "get_ollama_embedding embeddings text =
     (if strip text = [] then []
      else
        case embeddings text of
          EmbedRaises \<Rightarrow> []
        | NoEmbedding \<Rightarrow> []
        | Embedding embedding \<Rightarrow> if embedding \<noteq> [] \<and> length embedding > 0 then embedding else [])"

section \<open>Similarity search (routes/search.py)\<close>

text \<open>One row of what the index returns: the lists \<^verbatim>\<open>ids\<close>, \<^verbatim>\<open>distances\<close>, \<^verbatim>\<open>documents\<close>
  and \<^verbatim>\<open>metadatas\<close> of the result have one entry per hit.\<close>

record hit =
  hit_id :: string
  distance :: real
  document :: string
  hit_metadata :: "(string \<times> string) list"

text \<open>The index is outside the program: \<^verbatim>\<open>collection.query\<close> is a function of the
  embedding and the number of results asked for, and may raise. \<open>collection\<close> is the
  module's global, \<open>None\<close> until the start-up has run.\<close>

record env =
  embeddings :: "string \<Rightarrow> embed_response"
  collection :: "(real list \<Rightarrow> int \<Rightarrow> py_error + hit list) option"

text \<open>\<^verbatim>\<open>round(x, 4)\<close>: to the nearest multiple of 1/10000, a tie to the even one.\<close>

definition round_half_even :: "real \<Rightarrow> int" where
  "round_half_even x =
     (let f = \<lfloor>x\<rfloor>; r = x - of_int f
      in if r < 1 / 2 then f
         else if r > 1 / 2 then f + 1
         else if even f then f else f + 1)"

definition round4 :: "real \<Rightarrow> real" where
  "round4 x = of_int (round_half_even (x * 10000)) / 10000"

text \<open>\<^verbatim>\<open>metadata.get("title", "Untitled")\<close>\<close>

definition get_title :: "(string \<times> string) list \<Rightarrow> string" where
  "get_title md = (case map_of md ''title'' of None \<Rightarrow> ''Untitled'' | Some t \<Rightarrow> t)"

text \<open>The loop over the hits. Comparing with a threshold that is \<^verbatim>\<open>None\<close> raises
  \<^verbatim>\<open>TypeError\<close>.\<close>

fun collect_results :: "real option \<Rightarrow> hit list \<Rightarrow> py_error + SearchResult list" where
  "collect_results th [] = Inr []"
| "collect_results th (h # hs) =
     (case th of
        None \<Rightarrow> Inl TypeError
      | Some t \<Rightarrow>
          let similarity = max 0 (1 - distance h) in
          case collect_results th hs of
            Inl e \<Rightarrow> Inl e
          | Inr rest \<Rightarrow>
              if similarity \<ge> t then
                Inr (\<lparr>doc_id = hit_id h, title = get_title (hit_metadata h),
                       content = document h, similarity = round4 similarity,
                       metadata = hit_metadata h\<rparr> # rest)
              else Inr rest)"

definition search_documents :: "env \<Rightarrow> Query \<Rightarrow> py_error + SearchResult list" where
  "search_documents e q =
     (if strip (question q) = [] then Inl (HTTPException 400)
      else
        let query_embedding = get_ollama_embedding (embeddings e) (question q) in
        case collection e of
          None \<Rightarrow> Inl RuntimeError
        | Some query_index \<Rightarrow>
            (case top_k q of
               None \<Rightarrow> Inl TypeError
             | Some k \<Rightarrow>
                 (case query_index query_embedding (min k 20) of
                    Inl err \<Rightarrow> Inl err
                  | Inr hits \<Rightarrow> collect_results (threshold q) hits)))"

section \<open>Synchronous query (routes/rag\_routes.py)\<close>

text \<open>\<^verbatim>\<open>query.top_k = query.top_k or 20\<close> and \<^verbatim>\<open>query.threshold = query.threshold or 0.55\<close>:
  \<^verbatim>\<open>None\<close> and zero are the false values.\<close>

definition resolve_defaults :: "Query \<Rightarrow> Query" where
  "resolve_defaults q =
     q\<lparr>top_k := Some (case top_k q of None \<Rightarrow> 20 | Some k \<Rightarrow> if k = 0 then 20 else k),
       threshold := Some (case threshold q of None \<Rightarrow> 55 / 100
                          | Some t \<Rightarrow> if t = 0 then 55 / 100 else t)\<rparr>"

text \<open>\<^verbatim>\<open>a, b = s\<close> for a string \<open>s\<close>: the string is iterated, and must have exactly two
  characters.\<close>

definition unpack_pair :: "string \<Rightarrow> py_error + string \<times> string" where
  "unpack_pair s = (case s of [a, b] \<Rightarrow> Inr ([a], [b]) | _ \<Rightarrow> Inl ValueError)"

text \<open>\<^verbatim>\<open>[result.content for result in search_results if result.similarity >= query.threshold]\<close>\<close>

fun select_context :: "real option \<Rightarrow> SearchResult list \<Rightarrow> py_error + string list" where
  "select_context th [] = Inr []"
| "select_context th (r # rs) =
     (case th of
        None \<Rightarrow> Inl TypeError
      | Some t \<Rightarrow>
          (case select_context th rs of
             Inl e \<Rightarrow> Inl e
           | Inr rest \<Rightarrow> if similarity r \<ge> t then Inr (content r # rest) else Inr rest))"

definition perform_rag :: "env \<Rightarrow> llm \<Rightarrow> Query \<Rightarrow> py_error + RAGResponse" where
  "perform_rag e generate q0 =
     (if strip (question q0) = [] then Inl (HTTPException 400)
      else
        let q = resolve_defaults q0 in
        case search_documents e q of
          Inl err \<Rightarrow> Inl err
        | Inr search_results \<Rightarrow>
            (case
               (if search_results \<noteq> [] then
                  (case select_context (threshold q) search_results of
                     Inl err \<Rightarrow> Inl err
                   | Inr context_docs \<Rightarrow>
                       if context_docs \<noteq> [] then
                         generate_answer generate (question q) context_docs default_model
                       else unpack_pair ''No relevant documents found.'')
                else unpack_pair ''No relevant documents found.'')
             of
               Inl err \<Rightarrow> Inl err
             | Inr (answer, model) \<Rightarrow>
                 Inr \<lparr>query = question q, generated_answer = answer, model_used = model\<rparr>))"

section \<open>Example inputs\<close>

text \<open>An LLM runtime that raises on every call, and one that always answers the same text.\<close>

definition always_raises :: llm where
  "always_raises = (\<lambda>call model prompt. Raises)"

definition always_responds :: "string \<Rightarrow> llm" where
  "always_responds text = (\<lambda>call model prompt. Responds text)"

definition a_hit :: "real \<Rightarrow> hit" where
  "a_hit d = \<lparr>hit_id = ''doc-1'', distance = d, document = ''X is a letter.'', hit_metadata = []\<rparr>"

text \<open>An index that answers every query with the same hits.\<close>

definition fixed_index :: "hit list \<Rightarrow> env" where
  "fixed_index hits =
     \<lparr>embeddings = (\<lambda>text. Embedding [1]), collection = Some (\<lambda>embedding n. Inr hits)\<rparr>"

text \<open>An index that returns the first \<open>n\<close> of its hits, nearest first, when asked for
  \<open>n\<close> results.\<close>

definition nearest_index :: "hit list \<Rightarrow> env" where
  "nearest_index hits =
     \<lparr>embeddings = (\<lambda>text. Embedding [1]),
      collection = Some (\<lambda>embedding n. Inr (take (nat n) hits))\<rparr>"

text \<open>An embedding provider that is down, and an index that refuses an empty query
  embedding with an error of its own, as the vector store does.\<close>

definition provider_down :: env where
  "provider_down =
     \<lparr>embeddings = (\<lambda>text. EmbedRaises),
      collection = Some (\<lambda>embedding n. if embedding = [] then Inl ValueError else Inr [])\<rparr>"

section \<open>Properties of the string operations\<close>

subsection \<open>Characters\<close>

lemma upper_char_lower: "islower c \<Longrightarrow> isupper (upper_char c)"
  apply (simp add: islower_def isupper_def upper_char_def)
  apply (subst mod_less)
  apply arith
  apply arith
  done

lemma upper_char_id: "\<not> islower c \<Longrightarrow> upper_char c = c"
  by (simp add: upper_char_def)

lemma islower_not_space: "islower c \<Longrightarrow> \<not> isspace c"
  by (simp add: islower_def isspace_def)

lemma isupper_not_space: "isupper c \<Longrightarrow> \<not> isspace c"
  by (simp add: isupper_def isspace_def)

lemma isspace_upper_char: "isspace (upper_char c) = isspace c"
proof (cases "islower c")
  case True
  then show ?thesis
    using upper_char_lower [of c] islower_not_space [of c]
      isupper_not_space [of "upper_char c"] by blast
next
  case False
  then show ?thesis by (simp add: upper_char_id)
qed

lemma islower_not_end: "islower c \<Longrightarrow> \<not> sentence_end c"
  by (auto simp add: islower_def sentence_end_def)

lemma isupper_not_end: "isupper c \<Longrightarrow> \<not> sentence_end c"
  by (auto simp add: isupper_def sentence_end_def)

lemma sentence_end_upper_char: "sentence_end (upper_char c) = sentence_end c"
proof (cases "islower c")
  case True
  then show ?thesis
    using upper_char_lower [of c] islower_not_end [of c]
      isupper_not_end [of "upper_char c"] by blast
next
  case False
  then show ?thesis by (simp add: upper_char_id)
qed

lemma sentence_end_not_space: "sentence_end c \<Longrightarrow> \<not> isspace c"
  by (auto simp add: sentence_end_def isspace_def)

lemma islower_not_dot: "islower c \<Longrightarrow> c \<noteq> CHR ''.''"
  by (auto simp add: islower_def)

lemma isupper_not_dot: "isupper c \<Longrightarrow> c \<noteq> CHR ''.''"
  by (auto simp add: isupper_def)

lemma dot_upper_char: "upper_char c = CHR ''.'' \<longleftrightarrow> c = CHR ''.''"
proof (cases "islower c")
  case True
  then show ?thesis
    using upper_char_lower [of c] islower_not_dot [of c]
      isupper_not_dot [of "upper_char c"] by blast
next
  case False
  then show ?thesis by (simp add: upper_char_id)
qed

subsection \<open>Stripping\<close>
lemma rstrip_Nil [simp]: "rstrip [] = []" by (simp add: rstrip_def)

lemma rstrip_Cons:
  assumes x: "\<not> isspace x"
  shows "rstrip (x # w) = x # rstrip w"
proof (cases "\<forall>y\<in>set (rev w). isspace y")
  case True
  then have a: "dropWhile isspace (rev w) = []" by simp
  from True have "dropWhile isspace (rev w @ [x]) = dropWhile isspace [x]"
    by (intro dropWhile_append2) simp
  with x have b: "dropWhile isspace (rev w @ [x]) = [x]" by simp
  show ?thesis unfolding rstrip_def by (simp only: rev.simps a b) simp
next
  case False
  then obtain y where "y \<in> set (rev w)" "\<not> isspace y" by blast
  then have "dropWhile isspace (rev w @ [x]) = dropWhile isspace (rev w) @ [x]"
    by (rule dropWhile_append1)
  then show ?thesis by (simp add: rstrip_def)
qed

lemma rstrip_snoc_nonspace: "\<not> isspace x \<Longrightarrow> rstrip (w @ [x]) = w @ [x]"
  by (simp add: rstrip_def)

lemma rstrip_id: "s \<noteq> [] \<Longrightarrow> \<not> isspace (last s) \<Longrightarrow> rstrip s = s"
  by (cases s rule: rev_cases) (simp_all add: rstrip_def)

lemma lstrip_id: "s \<noteq> [] \<Longrightarrow> \<not> isspace (hd s) \<Longrightarrow> lstrip s = s"
  by (cases s) (simp_all add: lstrip_def)

lemma strip_id: "s \<noteq> [] \<Longrightarrow> \<not> isspace (hd s) \<Longrightarrow> \<not> isspace (last s) \<Longrightarrow> strip s = s"
  by (simp add: strip_def lstrip_id rstrip_id)

lemma rstrip_last: "rstrip s \<noteq> [] \<Longrightarrow> \<not> isspace (last (rstrip s))"
proof -
  assume a: "rstrip s \<noteq> []"
  then have "dropWhile isspace (rev s) \<noteq> []" by (simp add: rstrip_def)
  then have "\<not> isspace (hd (dropWhile isspace (rev s)))" by (rule hd_dropWhile)
  then show ?thesis using a by (simp add: rstrip_def last_rev)
qed

lemma lstrip_hd: "lstrip s \<noteq> [] \<Longrightarrow> \<not> isspace (hd (lstrip s))"
  by (simp add: lstrip_def hd_dropWhile)

lemma rstrip_hd: "s \<noteq> [] \<Longrightarrow> \<not> isspace (hd s) \<Longrightarrow> rstrip s \<noteq> [] \<and> hd (rstrip s) = hd s"
  by (cases s) (simp_all add: rstrip_Cons)

lemma strip_hd: "strip s \<noteq> [] \<Longrightarrow> \<not> isspace (hd (strip s))"
proof -
  assume a: "strip s \<noteq> []"
  then have n: "lstrip s \<noteq> []" by (auto simp add: strip_def)
  then have "\<not> isspace (hd (lstrip s))" by (rule lstrip_hd)
  with n show ?thesis using rstrip_hd [of "lstrip s"] by (simp add: strip_def)
qed

lemma strip_last: "strip s \<noteq> [] \<Longrightarrow> \<not> isspace (last (strip s))"
  by (simp add: strip_def rstrip_last)

lemma strip_strip: "strip (strip s) = strip s"
proof (cases "strip s = []")
  case True
  then show ?thesis by (simp add: strip_def lstrip_def)
next
  case False
  then show ?thesis by (simp add: strip_id strip_hd strip_last)
qed

subsection \<open>Splitting at a character\<close>

lemma split_char_Cons [simp]:
  "split_char c (x # xs) =
     (if x = c then [] # split_char c xs
      else (x # hd (split_char c xs)) # tl (split_char c xs))"
  by (simp add: Let_def)

declare split_char.simps(2) [simp del]

lemma split_char_not_Nil [simp]: "split_char c xs \<noteq> []"
  by (induction xs) simp_all

lemma split_char_notin: "c \<notin> set xs \<Longrightarrow> split_char c xs = [xs]"
  by (induction xs) auto

lemma split_char_length: "1 < length (split_char c xs) \<longleftrightarrow> c \<in> set xs"
proof (induction xs)
  case Nil
  then show ?case by simp
next
  case (Cons x xs)
  have "length (split_char c xs) \<noteq> 0" by simp
  then have "0 < length (split_char c xs)" by blast
  with Cons show ?case by (auto simp add: Suc_lessI)
qed

lemma join_Cons_Cons: "join sep ((x # w) # ws) = x # join sep (w # ws)"
  by (cases ws) simp_all

lemma split_char_decomp:
  "c \<in> set xs \<Longrightarrow>
     join [c] (butlast (split_char c xs)) @ [c] @ last (split_char c xs) = xs"
proof (induction xs)
  case Nil
  then show ?case by simp
next
  case (Cons x xs)
  let ?r = "split_char c xs"
  show ?case
  proof (cases "x = c")
    case True
    show ?thesis
    proof (cases "c \<in> set xs")
      case False
      with True show ?thesis by (simp add: split_char_notin)
    next
      case in_xs: True
      then have "1 < length ?r" by (simp only: split_char_length)
      then obtain a b bs where r: "?r = a # b # bs"
        by (cases ?r; cases "tl ?r") auto
      from Cons.IH [OF in_xs] r True show ?thesis by simp
    qed
  next
    case False
    with Cons.prems have in_xs: "c \<in> set xs" by simp
    then have "1 < length ?r" by (simp only: split_char_length)
    then obtain a b bs where r: "?r = a # b # bs"
      by (cases ?r; cases "tl ?r") auto
    from Cons.IH [OF in_xs] r False show ?thesis by (simp add: join_Cons_Cons)
  qed
qed

lemma last_split_char_Nil [simp]: "last (split_char c []) = []"
  by simp

section \<open>Properties of ensure proper ending\<close>

lemma capitalize_first_Nil_iff [simp]: "capitalize_first s = [] \<longleftrightarrow> s = []"
  by (cases s) (simp_all add: capitalize_first_def)

lemma capitalize_first_hd_space:
  "s \<noteq> [] \<Longrightarrow> isspace (hd (capitalize_first s)) = isspace (hd s)"
  by (cases s) (simp_all add: capitalize_first_def isspace_upper_char)

lemma capitalize_first_last_space:
  "s \<noteq> [] \<Longrightarrow> isspace (last (capitalize_first s)) = isspace (last s)"
  by (cases s) (simp_all add: capitalize_first_def isspace_upper_char)

lemma capitalize_first_ends:
  "ends_with_punct (capitalize_first s) = ends_with_punct s"
  by (cases s) (simp_all add: capitalize_first_def ends_with_punct_def sentence_end_upper_char)

lemma capitalize_first_idem: "capitalize_first (capitalize_first s) = capitalize_first s"
proof (cases s)
  case Nil
  then show ?thesis by (simp add: capitalize_first_def)
next
  case (Cons c cs)
  show ?thesis
  proof (cases "islower c")
    case True
    then have "isupper (upper_char c)" by (rule upper_char_lower)
    with Cons show ?thesis by (simp add: capitalize_first_def)
  next
    case False
    then have "upper_char c = c" by (rule upper_char_id)
    with Cons show ?thesis by (simp add: capitalize_first_def)
  qed
qed

text \<open>A text with no surrounding whitespace that ends a sentence is returned as it is.\<close>

lemma ensure_proper_ending_fixed:
  assumes "ends_with_punct s" and "\<not> isspace (hd s)"
  shows "ensure_proper_ending s = s"
proof -
  from assms(1) have ne: "s \<noteq> []" and "sentence_end (last s)"
    by (simp_all add: ends_with_punct_def)
  then have "\<not> isspace (last s)" by (simp add: sentence_end_not_space)
  with ne assms(2) have "strip s = s" by (simp add: strip_id)
  with ne assms(1) show ?thesis by (simp add: ensure_proper_ending_def)
qed

lemma drop_fragment_ends: "ends_with_punct (drop_fragment t)"
  by (simp add: drop_fragment_def Let_def ends_with_punct_def sentence_end_def)

lemma drop_fragment_hd:
  assumes "t = [] \<or> \<not> isspace (hd t)"
  shows "\<not> isspace (hd (drop_fragment t))"
proof (cases "1 < length (split_char CHR ''.'' t)")
  case True
  then have "CHR ''.'' \<in> set t" by (simp only: split_char_length)
  then have d: "join ''.'' (butlast (split_char CHR ''.'' t)) @ ''.'' @ last (split_char CHR ''.'' t) = t"
    by (rule split_char_decomp)
  let ?p = "join ''.'' (butlast (split_char CHR ''.'' t)) @ ''.''"
  have "t = ?p @ last (split_char CHR ''.'' t)" using d by simp
  then have "hd t = hd ?p" by (metis hd_append2 snoc_eq_iff_butlast)
  moreover from d have "t \<noteq> []" by auto
  ultimately show ?thesis using assms True by (simp add: drop_fragment_def Let_def)
next
  case False
  show ?thesis
  proof (cases "t = []")
    case True
    with False show ?thesis by (simp add: drop_fragment_def isspace_def)
  next
    case ne: False
    with assms have "\<not> isspace (hd t)" by simp
    with ne have "rstrip t \<noteq> [] \<and> hd (rstrip t) = hd t" by (rule rstrip_hd)
    with False \<open>\<not> isspace (hd t)\<close> show ?thesis by (simp add: drop_fragment_def)
  qed
qed

lemma ensure_proper_ending_unfold:
  "x \<noteq> [] \<Longrightarrow> ensure_proper_ending x =
     (if ends_with_punct (strip x) then strip x
      else if length (strip (last (split_char CHR ''.'' (strip x)))) < 5
        then capitalize_first (drop_fragment (strip x))
        else capitalize_first (strip x))"
  by (simp add: ensure_proper_ending_def drop_fragment_def Let_def)

lemma strip_Nil [simp]: "strip [] = []"
  by (simp add: strip_def lstrip_def)

lemma strip_start: "strip x = [] \<or> \<not> isspace (hd (strip x))"
  using strip_hd by blast

lemma ends_with_punct_strip_idem:
  "ends_with_punct t \<Longrightarrow> \<not> isspace (hd t) \<Longrightarrow> strip t = t"
  by (simp add: ends_with_punct_def sentence_end_not_space strip_id)

lemma strip_Cons_length:
  assumes "isspace y = isspace c"
  shows "length (strip (y # w)) = length (strip (c # w))"
proof (cases "isspace c")
  case True
  with assms show ?thesis by (simp add: strip_def lstrip_def)
next
  case False
  with assms show ?thesis by (simp add: strip_def lstrip_def rstrip_Cons)
qed

lemma last_fragment_head:
  assumes "c \<noteq> d" and "y \<noteq> d" and "isspace y = isspace c"
  shows "length (strip (last (split_char d (y # cs)))) =
         length (strip (last (split_char d (c # cs))))"
proof -
  let ?r = "split_char d cs"
  from assms(2) have "last (split_char d (y # cs)) =
      (if tl ?r = [] then y # hd ?r else last (tl ?r))"
    by simp
  moreover from assms(1) have "last (split_char d (c # cs)) =
      (if tl ?r = [] then c # hd ?r else last (tl ?r))"
    by simp
  ultimately show ?thesis using strip_Cons_length [OF assms(3), of "hd ?r"] by simp
qed

lemma last_fragment_capitalize:
  "length (strip (last (split_char CHR ''.'' (capitalize_first t)))) =
   length (strip (last (split_char CHR ''.'' t)))"
proof (cases t)
  case Nil
  then show ?thesis by (simp add: capitalize_first_def)
next
  case (Cons c cs)
  show ?thesis
  proof (cases "isupper c \<or> c = CHR ''.''")
    case True
    then have "capitalize_first (c # cs) = c # cs"
      by (auto simp add: capitalize_first_def upper_char_def islower_def)
    with Cons show ?thesis by simp
  next
    case False
    then have "upper_char c \<noteq> CHR ''.''" by (simp add: dot_upper_char)
    with False have "length (strip (last (split_char CHR ''.'' (upper_char c # cs)))) =
          length (strip (last (split_char CHR ''.'' (c # cs))))"
      by (intro last_fragment_head) (simp_all add: isspace_upper_char)
    with Cons False show ?thesis by (simp add: capitalize_first_def)
  qed
qed

lemma capitalize_first_strip_id:
  assumes "t \<noteq> []" "\<not> isspace (hd t)" "\<not> isspace (last t)"
  shows "strip (capitalize_first t) = capitalize_first t"
  using assms by (simp add: strip_id capitalize_first_hd_space capitalize_first_last_space)

text \<open>
  Claim C9. \<^verbatim>\<open>ensure_proper_ending\<close> is idempotent: for every input string, applying
  it twice gives the same text as applying it once.
\<close>

theorem ensure_proper_ending_idempotent:
  "ensure_proper_ending (ensure_proper_ending x) = ensure_proper_ending x"
proof (cases "x = []")
  case True
  then show ?thesis by (simp add: ensure_proper_ending_def)
next
  case ne: False
  let ?t = "strip x"
  let ?frag = "strip (last (split_char CHR ''.'' ?t))"
  show ?thesis
  proof (cases "ends_with_punct ?t")
    case True
    then have "?t \<noteq> []" by (simp add: ends_with_punct_def)
    then have "\<not> isspace (hd ?t)" by (rule strip_hd)
    with True have "ensure_proper_ending ?t = ?t" by (rule ensure_proper_ending_fixed)
    with ne True show ?thesis by (simp add: ensure_proper_ending_unfold)
  next
    case np: False
    show ?thesis
    proof (cases "length ?frag < 5")
      case True
      let ?r = "capitalize_first (drop_fragment ?t)"
      have r: "ensure_proper_ending x = ?r"
        using ne np True by (simp add: ensure_proper_ending_unfold)
      have e: "ends_with_punct ?r"
        by (simp add: capitalize_first_ends drop_fragment_ends)
      then have "drop_fragment ?t \<noteq> []" by (simp add: ends_with_punct_def)
      moreover have "\<not> isspace (hd (drop_fragment ?t))"
        by (rule drop_fragment_hd) (rule strip_start)
      ultimately have "\<not> isspace (hd ?r)" by (simp add: capitalize_first_hd_space)
      with e have "ensure_proper_ending ?r = ?r" by (rule ensure_proper_ending_fixed)
      with r show ?thesis by simp
    next
      case long: False
      let ?r = "capitalize_first ?t"
      have r: "ensure_proper_ending x = ?r"
        using ne np long by (simp add: ensure_proper_ending_unfold)
      from long have tne: "?t \<noteq> []" by auto
      then have h: "\<not> isspace (hd ?t)" and l: "\<not> isspace (last ?t)"
        by (simp_all add: strip_hd strip_last)
      from tne h l have s: "strip ?r = ?r" by (rule capitalize_first_strip_id)
      from tne have rne: "?r \<noteq> []" by simp
      have "\<not> ends_with_punct ?r" using np by (simp add: capitalize_first_ends)
      moreover have "\<not> length (strip (last (split_char CHR ''.'' ?r))) < 5"
        using long by (simp add: last_fragment_capitalize)
      ultimately have "ensure_proper_ending ?r = capitalize_first ?r"
        using rne s by (simp add: ensure_proper_ending_unfold)
      with r show ?thesis by (simp add: capitalize_first_idem)
    qed
  qed
qed

lemma ends_with_punct_last: "ends_with_punct s \<Longrightarrow> \<not> isspace (last s)"
  by (simp add: ends_with_punct_def sentence_end_not_space)

text \<open>
  Claim C3, as the code has it. For a non-empty input the result ends in a period, an
  exclamation mark or a question mark exactly when the stripped input already does, or
  when the stripped fragment after its last period has fewer than five characters. A
  longer last fragment gets no period: \<^verbatim>\<open>"The cat sat"\<close> is returned as it is.
\<close>

theorem ensure_proper_ending_punctuated:
  "x \<noteq> [] \<Longrightarrow>
     (ends_with_punct (ensure_proper_ending x) \<longleftrightarrow>
        ends_with_punct (strip x) \<or>
        length (strip (last (split_char CHR ''.'' (strip x)))) < 5) \<and>
     ensure_proper_ending ''The cat sat'' = ''The cat sat''"
proof -
  assume ne: "x \<noteq> []"
  have cat: "ensure_proper_ending ''The cat sat'' = ''The cat sat''"
    by code_simp
  let ?t = "strip x"
  have "ends_with_punct (ensure_proper_ending x) \<longleftrightarrow>
        ends_with_punct ?t \<or> length (strip (last (split_char CHR ''.'' ?t))) < 5"
    using ne
    by (simp add: ensure_proper_ending_unfold capitalize_first_ends drop_fragment_ends)
  with cat show ?thesis by simp
qed

theorem ensure_proper_ending_punctuated_witness:
  "''This is good. ok'' \<noteq> [] \<and> ends_with_punct (ensure_proper_ending ''This is good. ok'')"
proof -
  have h: "''This is good. ok'' \<noteq> []" by simp
  have "length (strip (last (split_char CHR ''.'' (strip ''This is good. ok'')))) < 5"
    by code_simp
  with ensure_proper_ending_punctuated [OF h] h show ?thesis by blast
qed

text \<open>The input of Scenario E: the result does not end a sentence, and is not
  \<^verbatim>\<open>"The cat sat."\<close>.\<close>

theorem the_cat_sat_unpunctuated:
  "\<not> ends_with_punct (ensure_proper_ending ''The cat sat'') \<and>
   ensure_proper_ending ''The cat sat'' \<noteq> ''The cat sat.''"
  by code_simp

text \<open>
  Claim C10, as the code has it. The test for the empty string comes before the strip. For
  an input that is empty or has non-empty stripped content, the result is the result for
  the stripped input; when the stripped content is non-empty the result has no leading
  and no trailing whitespace; \<^verbatim>\<open>"  Hi."\<close> gives \<^verbatim>\<open>"Hi."\<close>.
\<close>

theorem ensure_proper_ending_strips:
  "(x = [] \<or> strip x \<noteq> [] \<longrightarrow> ensure_proper_ending x = ensure_proper_ending (strip x)) \<and>
   (strip x \<noteq> [] \<longrightarrow>
      ensure_proper_ending x \<noteq> [] \<and>
      \<not> isspace (hd (ensure_proper_ending x)) \<and>
      \<not> isspace (last (ensure_proper_ending x))) \<and>
   ensure_proper_ending ''  Hi.'' = ''Hi.''"
proof (intro conjI impI)
  show "ensure_proper_ending ''  Hi.'' = ''Hi.''" by code_simp
next
  assume "x = [] \<or> strip x \<noteq> []"
  then show "ensure_proper_ending x = ensure_proper_ending (strip x)"
  proof
    assume "x = []"
    then show ?thesis by simp
  next
    assume t: "strip x \<noteq> []"
    then have "x \<noteq> []" by auto
    with t show ?thesis by (simp add: ensure_proper_ending_unfold strip_strip)
  qed
next
  assume t: "strip x \<noteq> []"
  then have ne: "x \<noteq> []" by auto
  let ?t = "strip x"
  from t have h: "\<not> isspace (hd ?t)" and l: "\<not> isspace (last ?t)"
    by (simp_all add: strip_hd strip_last)
  let ?d = "drop_fragment ?t"
  have de: "ends_with_punct (capitalize_first ?d)"
    by (simp add: capitalize_first_ends drop_fragment_ends)
  then have dne: "?d \<noteq> []" by (simp add: ends_with_punct_def)
  have "\<not> isspace (hd ?d)" by (rule drop_fragment_hd) (rule strip_start)
  with dne have dh: "\<not> isspace (hd (capitalize_first ?d))"
    by (simp add: capitalize_first_hd_space)
  from de have dl: "\<not> isspace (last (capitalize_first ?d))" by (rule ends_with_punct_last)
  from t h l dne dh dl ne
  show "ensure_proper_ending x \<noteq> []"
    and "\<not> isspace (hd (ensure_proper_ending x))"
    and "\<not> isspace (last (ensure_proper_ending x))"
    by (simp_all add: ensure_proper_ending_unfold capitalize_first_hd_space
        capitalize_first_last_space)
qed

theorem ensure_proper_ending_strips_witness:
  "strip ''  Hi.'' \<noteq> [] \<and>
   ensure_proper_ending ''  Hi.'' = ensure_proper_ending (strip ''  Hi.'') \<and>
   ensure_proper_ending ''  Hi.'' \<noteq> [] \<and>
   \<not> isspace (hd (ensure_proper_ending ''  Hi.'')) \<and>
   \<not> isspace (last (ensure_proper_ending ''  Hi.''))"
proof -
  have h: "strip ''  Hi.'' \<noteq> []" by code_simp
  with ensure_proper_ending_strips [of "''  Hi.''"] show ?thesis by blast
qed

text \<open>A single space is not the empty string, so it gets past the first test; its result
  differs from the result for its strip.\<close>

theorem whitespace_only_counterexample:
  "ensure_proper_ending '' '' = ''.'' \<and> ensure_proper_ending (strip '' '') = [] \<and>
   ensure_proper_ending '' '' \<noteq> ensure_proper_ending (strip '' '')"
  by code_simp

section \<open>Properties of the answer generator\<close>

lemma upt_max_retries: "[0..<max_retries] = [0, 1]"
  by (simp add: max_retries_def upt_rec)

lemma extractive_provenance: "snd (generate_answer_extractive q docs) = ''extractive''"
  by (simp add: generate_answer_extractive_def Let_def)

lemma try_attempt_raises:
  "generate attempt model (build_prompt q docs) = Raises \<Longrightarrow>
     try_attempt generate q docs model attempt = Inl OllamaError"
  by (simp add: try_attempt_def)

lemma attempts_returns: "\<exists>r. attempts generate q docs model as = Inr r"
  by (induction as) (auto split: sum.splits attempt_result.splits)

text \<open>
  Claim C7. \<^verbatim>\<open>generate_answer\<close> returns for every behaviour of the LLM runtime: no
  exception leaves it. When the generation raises on both attempts, the result is the
  output of the extractive fallback for the same question and documents, whose
  provenance is \<^verbatim>\<open>"extractive"\<close>.
\<close>

theorem generate_answer_never_raises:
  "(\<exists>r. generate_answer generate q docs model = Inr r) \<and>
   (generate 0 model (build_prompt q docs) = Raises \<and>
    generate 1 model (build_prompt q docs) = Raises \<longrightarrow>
      generate_answer generate q docs model = Inr (generate_answer_extractive q docs) \<and>
      snd (generate_answer_extractive q docs) = ''extractive'')"
proof (intro conjI impI)
  show "\<exists>r. generate_answer generate q docs model = Inr r"
    unfolding generate_answer_def by (rule attempts_returns)
next
  assume "generate 0 model (build_prompt q docs) = Raises \<and>
    generate 1 model (build_prompt q docs) = Raises"
  then have "try_attempt generate q docs model 0 = Inl OllamaError"
    and "try_attempt generate q docs model 1 = Inl OllamaError"
    by (simp_all add: try_attempt_raises)
  then show "generate_answer generate q docs model =
      Inr (generate_answer_extractive q docs)"
    unfolding generate_answer_def upt_max_retries by (simp add: max_retries_def)
next
  show "snd (generate_answer_extractive q docs) = ''extractive''"
    by (rule extractive_provenance)
qed

theorem generate_answer_never_raises_witness:
  "always_raises 0 default_model (build_prompt ''is cat'' [''The cat sat. A dog ran'']) = Raises \<and>
   always_raises 1 default_model (build_prompt ''is cat'' [''The cat sat. A dog ran'']) = Raises \<and>
   generate_answer always_raises ''is cat'' [''The cat sat. A dog ran''] default_model =
     Inr (generate_answer_extractive ''is cat'' [''The cat sat. A dog ran''])"
  using generate_answer_never_raises
    [of always_raises "''is cat''" "[''The cat sat. A dog ran'']" default_model]
  by (simp add: always_raises_def)

text \<open>
  Claim C2, as the code has it. The test for a short answer is made only when the attempt
  is not the last one. When both attempts succeed with fewer than 50 words, the first
  answer is dropped and the second one is returned, after \<^verbatim>\<open>ensure_proper_ending\<close>, with
  the provenance of the model; the extractive fallback is not used.
\<close>

theorem generate_answer_short_final_attempt:
  "generate 0 model (build_prompt q docs) = Responds r0 \<Longrightarrow>
   generate 1 model (build_prompt q docs) = Responds r1 \<Longrightarrow>
   length (split_ws (strip r0)) < MIN_RESPONSE_TOKENS \<Longrightarrow>
   length (split_ws (strip r1)) < MIN_RESPONSE_TOKENS \<Longrightarrow>
   generate_answer generate q docs model =
     Inr (ensure_proper_ending (strip r1), ''ollama-'' @ model)"
  unfolding generate_answer_def upt_max_retries
  by (simp add: try_attempt_def max_retries_def Let_def)

lemma too_short_words: "length (split_ws (strip ''Too short'')) < MIN_RESPONSE_TOKENS"
  by code_simp

theorem generate_answer_short_final_attempt_witness:
  "length (split_ws (strip ''Too short'')) < MIN_RESPONSE_TOKENS \<and>
   generate_answer (always_responds ''Too short'') ''q'' [''d''] default_model =
     Inr (ensure_proper_ending (strip ''Too short''), ''ollama-'' @ default_model)"
proof -
  have a: "always_responds ''Too short'' 0 default_model (build_prompt ''q'' [''d'']) = Responds ''Too short''"
    and b: "always_responds ''Too short'' 1 default_model (build_prompt ''q'' [''d'']) = Responds ''Too short''"
    by (simp_all add: always_responds_def)
  from generate_answer_short_final_attempt
    [of "always_responds ''Too short''" default_model "''q''" "[''d'']" "''Too short''"
      "''Too short''", OF a b too_short_words too_short_words] too_short_words
  show ?thesis by simp
qed

text \<open>Two answers of two words each: the second one comes back, not the fallback's
  output.\<close>

theorem short_answers_not_extractive:
  "length (split_ws (strip ''Too short'')) < MIN_RESPONSE_TOKENS \<and>
   generate_answer (always_responds ''Too short'') ''q'' [''d''] default_model =
     Inr (''Too short'', ''ollama-gemma3:1b'') \<and>
   generate_answer_extractive ''q'' [''d''] = (''No good match.'', ''extractive'')"
  by code_simp

section \<open>Properties of the streaming answer generator\<close>

text \<open>
  Claim C8 at a stream that delivers the one fragment \<^verbatim>\<open>"Done."\<close>. The chunk
  \<^verbatim>\<open>"Done."\<close> is yielded, the accumulated text is a natural ending, and the pause that
  follows reads \<^verbatim>\<open>asyncio\<close> before the function has imported it. The handler then asks the
  non-streaming generator for an answer and yields its words after the chunk that is
  already out: the chunks concatenate to \<^verbatim>\<open>"Done.Done."\<close>, the answer is \<^verbatim>\<open>"Done."\<close>.
\<close>

theorem streaming_repeats_answer:
  "generate_answer_streaming (always_responds ''Done.'') [Fragment ''Done.''] ''q'' [''d'']
     default_model = Inr [''Done.'', ''Done.''] \<and>
   generate_answer (always_responds ''Done.'') ''q'' [''d''] default_model =
     Inr (''Done.'', ''ollama-gemma3:1b'') \<and>
   final_answer_text [''Done.''] = ''Done.''"
  by code_simp

section \<open>Properties of the synchronous query\<close>

lemma strip_question: "strip ''What is X?'' = ''What is X?''"
  by code_simp

text \<open>
  Claim C1 at three queries: an empty index; an index whose only candidate has similarity
  0.4, below the threshold 0.55; and a candidate that the search keeps but that falls
  below the threshold once its similarity is rounded. In each
  \<^verbatim>\<open>generated_answer, model_used = "No relevant documents found."\<close> unpacks a string of 28
  characters into two names and raises \<^verbatim>\<open>ValueError\<close>: no answer is returned.
\<close>

theorem perform_rag_no_documents_raises:
  "perform_rag (fixed_index []) generate (make_Query ''What is X?'' Omitted Omitted Omitted) =
     Inl ValueError \<and>
   perform_rag (fixed_index [a_hit (6 / 10)]) generate
     (make_Query ''What is X?'' Null Null Omitted) = Inl ValueError \<and>
   perform_rag (fixed_index [a_hit (44996 / 100000)]) generate
     (make_Query ''What is X?'' Null (Given (55003 / 100000)) Omitted) = Inl ValueError"
  by (simp add: perform_rag_def strip_question search_documents_def resolve_defaults_def
      make_Query_def field_value_def fixed_index_def a_hit_def unpack_pair_def
      round4_def round_half_even_def Let_def)

lemma resolve_defaults_top_k:
  "top_k q = None \<or> top_k q = Some 0 \<Longrightarrow>
     resolve_defaults (q\<lparr>top_k := Some 20\<rparr>) = resolve_defaults q"
  by (auto simp add: resolve_defaults_def)

lemma resolve_defaults_threshold:
  "threshold q = None \<or> threshold q = Some 0 \<Longrightarrow>
     resolve_defaults (q\<lparr>threshold := Some (55 / 100)\<rparr>) = resolve_defaults q"
  by (auto simp add: resolve_defaults_def)

text \<open>A \<^verbatim>\<open>top_k\<close> that is \<^verbatim>\<open>None\<close> or zero is resolved to 20 and a \<^verbatim>\<open>threshold\<close> that
  is \<^verbatim>\<open>None\<close> or zero to 0.55, and the whole operation then runs as it does for a query
  that carries these values.\<close>

lemma perform_rag_resolves_null_or_zero:
  "(top_k q = None \<or> top_k q = Some 0 \<longrightarrow>
      top_k (resolve_defaults q) = Some 20 \<and>
      perform_rag e generate q = perform_rag e generate (q\<lparr>top_k := Some 20\<rparr>)) \<and>
   (threshold q = None \<or> threshold q = Some 0 \<longrightarrow>
      threshold (resolve_defaults q) = Some (55 / 100) \<and>
      perform_rag e generate q = perform_rag e generate (q\<lparr>threshold := Some (55 / 100)\<rparr>))"
proof (intro conjI impI)
  assume a: "top_k q = None \<or> top_k q = Some 0"
  then show "top_k (resolve_defaults q) = Some 20" by (auto simp add: resolve_defaults_def)
  from resolve_defaults_top_k [OF a]
  show "perform_rag e generate q = perform_rag e generate (q\<lparr>top_k := Some 20\<rparr>)"
    by (simp add: perform_rag_def)
next
  assume a: "threshold q = None \<or> threshold q = Some 0"
  then show "threshold (resolve_defaults q) = Some (55 / 100)"
    by (auto simp add: resolve_defaults_def)
  from resolve_defaults_threshold [OF a]
  show "perform_rag e generate q = perform_rag e generate (q\<lparr>threshold := Some (55 / 100)\<rparr>)"
    by (simp add: perform_rag_def)
qed

text \<open>
  Claim C5 at the request \<^verbatim>\<open>{"question": "What is X?"}\<close>, which leaves \<^verbatim>\<open>top_k\<close> and
  \<^verbatim>\<open>threshold\<close> out. The \<^verbatim>\<open>Query\<close> class fills in its own defaults, 3 and 0.3; neither is
  a false value, so \<^verbatim>\<open>query.top_k or 20\<close> and \<^verbatim>\<open>query.threshold or 0.55\<close> keep them. The
  index is asked for 3 results, not 20: of five stored documents three come back. The
  threshold is 0.3, not 0.55: documents of similarity 0.4 are returned, and the answer is
  made from one.
\<close>

theorem omitted_fields_searched_with_model_defaults:
  "top_k (resolve_defaults (make_Query ''What is X?'' Omitted Omitted Omitted)) = Some 3 \<and>
   threshold (resolve_defaults (make_Query ''What is X?'' Omitted Omitted Omitted)) =
     Some (3 / 10) \<and>
   search_documents (nearest_index (replicate 5 (a_hit (6 / 10))))
     (resolve_defaults (make_Query ''What is X?'' Omitted Omitted Omitted)) =
     Inr (replicate 3 \<lparr>doc_id = ''doc-1'', title = ''Untitled'', content = ''X is a letter.'',
           similarity = 4 / 10, metadata = []\<rparr>) \<and>
   perform_rag (fixed_index [a_hit (6 / 10)]) always_raises
     (make_Query ''What is X?'' Omitted Omitted Omitted) =
     Inr \<lparr>query = ''What is X?'', generated_answer = ''X is a letter.'',
          model_used = ''extractive''\<rparr>"
  by code_simp

section \<open>Properties of the similarity search\<close>

text \<open>\<^verbatim>\<open>search_documents\<close> does not look at the embedding it gets: the index is queried
  with it, and the outcome of the search is what the index gives.\<close>

lemma search_documents_queries_index:
  "strip (question q) \<noteq> [] \<Longrightarrow> collection e = Some query_index \<Longrightarrow> top_k q = Some k \<Longrightarrow>
     search_documents e q =
       (case query_index (get_ollama_embedding (embeddings e) (question q)) (min k 20) of
          Inl err \<Rightarrow> Inl err
        | Inr hits \<Rightarrow> collect_results (threshold q) hits)"
  by (simp add: search_documents_def)

text \<open>
  Claim C4 at a query made while the embedding provider is down.
  \<^verbatim>\<open>get_ollama_embedding\<close> catches the failure and returns the empty list: it raises
  nothing. \<^verbatim>\<open>search_documents\<close> makes no test of the embedding, unlike \<^verbatim>\<open>add_document\<close>,
  and goes on to query the index with the empty list. The error that comes back is the
  one the index raises for an empty embedding; with a working provider the same index
  answers.
\<close>

theorem failed_embedding_reaches_index:
  "get_ollama_embedding (embeddings provider_down) ''What is X?'' = [] \<and>
   search_documents provider_down (make_Query ''What is X?'' Omitted Omitted Omitted) =
     Inl ValueError \<and>
   search_documents (provider_down\<lparr>embeddings := (\<lambda>text. Embedding [1])\<rparr>)
     (make_Query ''What is X?'' Omitted Omitted Omitted) = Inr []"
  by code_simp

subsection \<open>Rounding\<close>

lemma round_half_even_cases:
  "round_half_even x = \<lfloor>x\<rfloor> \<and> x - of_int \<lfloor>x\<rfloor> \<le> 1 / 2 \<or>
   round_half_even x = \<lfloor>x\<rfloor> + 1 \<and> 1 / 2 \<le> x - of_int \<lfloor>x\<rfloor>"
  by (auto simp add: round_half_even_def Let_def)

lemma round_half_even_lower: "x - 1 / 2 \<le> of_int (round_half_even x)"
  using round_half_even_cases [of x] by linarith

lemma round_half_even_upper: "of_int (round_half_even x) \<le> x + 1 / 2"
  using round_half_even_cases [of x] by linarith

lemma round_half_even_nonneg: "0 \<le> x \<Longrightarrow> 0 \<le> round_half_even x"
proof -
  assume "0 \<le> x"
  then have "0 \<le> \<lfloor>x\<rfloor>" by simp
  then show ?thesis using round_half_even_cases [of x] by linarith
qed

lemma round_half_even_le_int: "x \<le> of_int n \<Longrightarrow> round_half_even x \<le> n"
proof -
  assume a: "x \<le> of_int n"
  then have f: "\<lfloor>x\<rfloor> \<le> n" by (simp add: floor_le_iff)
  show ?thesis
  proof (cases "\<lfloor>x\<rfloor> = n")
    case True
    then have "of_int n \<le> x" by (metis of_int_floor_le)
    with a have "x - of_int \<lfloor>x\<rfloor> = 0" using True by simp
    then have "round_half_even x = \<lfloor>x\<rfloor>" by (simp add: round_half_even_def Let_def)
    with True show ?thesis by simp
  next
    case False
    with f have "\<lfloor>x\<rfloor> + 1 \<le> n" by simp
    then show ?thesis using round_half_even_cases [of x] by linarith
  qed
qed

lemma round4_nonneg: "0 \<le> x \<Longrightarrow> 0 \<le> round4 x"
  using round_half_even_nonneg [of "x * 10000"] by (simp add: round4_def)

lemma round4_le_one: "x \<le> 1 \<Longrightarrow> round4 x \<le> 1"
proof -
  assume "x \<le> 1"
  then have "x * 10000 \<le> of_int 10000" by simp
  then have "round_half_even (x * 10000) \<le> 10000" by (rule round_half_even_le_int)
  then have "(of_int (round_half_even (x * 10000)) :: real) \<le> 10000" by linarith
  then show ?thesis by (simp add: round4_def)
qed

lemma round4_lower: "x - 1 / 20000 \<le> round4 x"
  using round_half_even_lower [of "x * 10000"] by (simp add: round4_def field_simps)

lemma round4_upper: "round4 x \<le> x + 1 / 20000"
  using round_half_even_upper [of "x * 10000"] by (simp add: round4_def field_simps)

lemma collect_results_member:
  "collect_results th hits = Inr rs \<Longrightarrow> r \<in> set rs \<Longrightarrow>
     \<exists>t h. th = Some t \<and> h \<in> set hits \<and> doc_id r = hit_id h \<and> content r = document h \<and>
       similarity r = round4 (max 0 (1 - distance h)) \<and> t \<le> max 0 (1 - distance h)"
proof (induction hits arbitrary: rs)
  case Nil
  then show ?case by simp
next
  case (Cons h hs)
  from Cons.prems(1) obtain t where t: "th = Some t"
    by (cases th) simp_all
  from Cons.prems(1) t obtain rest where rest: "collect_results th hs = Inr rest"
    by (cases "collect_results th hs") (simp_all add: Let_def)
  show ?case
  proof (cases "t \<le> max 0 (1 - distance h)")
    case True
    with Cons.prems(1) t rest have rs: "rs = \<lparr>doc_id = hit_id h, title = get_title (hit_metadata h),
        content = document h, similarity = round4 (max 0 (1 - distance h)),
        metadata = hit_metadata h\<rparr> # rest"
      by (simp add: Let_def)
    show ?thesis
    proof (cases "r \<in> set rest")
      case True
      from Cons.IH [OF rest True] show ?thesis by auto
    next
      case False
      with Cons.prems(2) rs have "r = \<lparr>doc_id = hit_id h, title = get_title (hit_metadata h),
        content = document h, similarity = round4 (max 0 (1 - distance h)),
        metadata = hit_metadata h\<rparr>" by simp
      with t True show ?thesis by auto
    qed
  next
    case False
    with Cons.prems(1) t rest have "rs = rest" by (simp add: Let_def)
    with Cons.prems(2) have "r \<in> set rest" by simp
    from Cons.IH [OF rest this] show ?thesis by auto
  qed
qed

text \<open>
  Claim C6, as the code has it. Every result that the search returns comes from a hit of
  the index at distance \<open>d\<close>; its similarity is \<open>max 0 (1 - d)\<close> rounded to four
  decimals, and is at least 0, and at most 1 when \<open>d\<close> is not negative. The threshold is
  compared with the value before rounding: that value is at least the threshold, and the
  similarity returned is at least the threshold less 0.00005.
\<close>

theorem search_results_similarity:
  assumes "search_documents e q = Inr rs" and "r \<in> set rs"
  shows "\<exists>t query_index k hits h.
           threshold q = Some t \<and> collection e = Some query_index \<and> top_k q = Some k \<and>
           query_index (get_ollama_embedding (embeddings e) (question q)) (min k 20) = Inr hits \<and>
           h \<in> set hits \<and>
           similarity r = round4 (max 0 (1 - distance h)) \<and>
           t \<le> max 0 (1 - distance h) \<and>
           0 \<le> similarity r \<and>
           (0 \<le> distance h \<longrightarrow> similarity r \<le> 1) \<and>
           t - 1 / 20000 \<le> similarity r"
proof -
  from assms(1) obtain query_index k hits where c: "collection e = Some query_index"
    and k: "top_k q = Some k"
    and i: "query_index (get_ollama_embedding (embeddings e) (question q)) (min k 20) = Inr hits"
    and "collect_results (threshold q) hits = Inr rs"
    by (auto simp add: search_documents_def Let_def split: if_splits option.splits sum.splits)
  from collect_results_member [OF this(4) assms(2)]
  obtain t and h :: hit where t: "threshold q = Some t"
    and m: "h \<in> set hits"
    and s: "similarity r = round4 (max 0 (1 - distance h))"
    and g: "t \<le> max 0 (1 - distance h)"
    by (elim exE conjE)
  have "0 \<le> similarity r" unfolding s by (rule round4_nonneg) simp
  moreover have "0 \<le> distance h \<longrightarrow> similarity r \<le> 1"
    unfolding s by (auto intro: round4_le_one)
  moreover have "t - 1 / 20000 \<le> similarity r"
    using round4_lower [of "max 0 (1 - distance h)"] g s by linarith
  ultimately show ?thesis using t c k i m s g
    by (intro exI [of _ t] exI [of _ query_index] exI [of _ k] exI [of _ hits] exI [of _ h]) simp
qed

lemma rounded_search:
  "search_documents (fixed_index [a_hit (44996 / 100000)])
     (make_Query ''What is X?'' Omitted (Given (55003 / 100000)) Omitted) =
     Inr [\<lparr>doc_id = ''doc-1'', title = ''Untitled'', content = ''X is a letter.'',
           similarity = 55 / 100, metadata = []\<rparr>]"
  by (simp add: search_documents_def fixed_index_def make_Query_def field_value_def
      strip_question a_hit_def get_title_def round4_def round_half_even_def Let_def)

theorem search_results_similarity_witness:
  "search_documents (fixed_index [a_hit (44996 / 100000)])
     (make_Query ''What is X?'' Omitted (Given (55003 / 100000)) Omitted) =
     Inr [\<lparr>doc_id = ''doc-1'', title = ''Untitled'', content = ''X is a letter.'',
           similarity = 55 / 100, metadata = []\<rparr>] \<and>
   (\<exists>t d. threshold (make_Query ''What is X?'' Omitted (Given (55003 / 100000)) Omitted) = Some t \<and>
      (55 / 100 :: real) = round4 (max 0 (1 - d)) \<and> t \<le> max 0 (1 - d) \<and>
      t - 1 / 20000 \<le> 55 / 100)"
proof -
  let ?r = "\<lparr>doc_id = ''doc-1'', title = ''Untitled'', content = ''X is a letter.'',
           similarity = 55 / 100, metadata = []\<rparr>"
  have m: "?r \<in> set [?r]" by simp
  from search_results_similarity [OF rounded_search m] rounded_search
  show ?thesis by auto
qed

text \<open>Distance 0.44996 and threshold 0.55003: the similarity 0.55004 passes the test and is
  returned as 0.55, which is below the threshold.\<close>

theorem rounded_similarity_below_threshold:
  "search_documents (fixed_index [a_hit (44996 / 100000)])
     (make_Query ''What is X?'' Omitted (Given (55003 / 100000)) Omitted) =
     Inr [\<lparr>doc_id = ''doc-1'', title = ''Untitled'', content = ''X is a letter.'',
           similarity = 55 / 100, metadata = []\<rparr>] \<and>
   threshold (make_Query ''What is X?'' Omitted (Given (55003 / 100000)) Omitted) =
     Some (55003 / 100000) \<and>
   (55 / 100 :: real) < 55003 / 100000"
  by (simp add: search_documents_def fixed_index_def make_Query_def field_value_def
      strip_question a_hit_def get_title_def round4_def round_half_even_def Let_def)

end
